theory Spec2Isabelle
  imports Main "HOL-Library.Sublist"
begin

section \<open>JavaScript values and strings\<close>

text \<open>
  Strings are sequences of code units below 256 (\<open>char list\<close>). The string methods
  the services call are written out: \<open>toLowerCase\<close>, \<open>trim\<close>, \<open>startsWith\<close>,
  \<open>includes\<close>, \<open>split\<close> and \<open>join\<close>.
\<close>

definition lowerChar :: "char \<Rightarrow> char" where
  "lowerChar c =
     (let n = (of_char c :: nat)
      in if (65 \<le> n \<and> n \<le> 90) \<or> (192 \<le> n \<and> n \<le> 222 \<and> n \<noteq> 215)
         then char_of (n + 32) else c)"

definition toLowerCase :: "string \<Rightarrow> string" where
  "toLowerCase s = map lowerChar s"

text \<open>White space as \<open>String.prototype.trim\<close> and the regular expression class
  \<open>\s\<close> see it, among the code units below 256: TAB, LF, VT, FF, CR, SPACE, NBSP.\<close>

definition isSpace :: "char \<Rightarrow> bool" where
  "isSpace c = ((of_char c :: nat) \<in> {9, 10, 11, 12, 13, 32, 160})"

definition trim :: "string \<Rightarrow> string" where
  "trim s = rev (dropWhile isSpace (rev (dropWhile isSpace s)))"

definition startsWith :: "string \<Rightarrow> string \<Rightarrow> bool" where
  "startsWith s p = (take (length p) s = p)"

text \<open>\<open>s.includes(t)\<close>: \<open>t\<close> occurs in \<open>s\<close> as a contiguous run.\<close>

fun includesStr :: "string \<Rightarrow> string \<Rightarrow> bool" where
  "includesStr [] t = (t = [])"
| "includesStr (c # s) t = (startsWith (c # s) t \<or> includesStr s t)"

text \<open>The double quote of the message templates.\<close>

definition dq :: string where
  "dq = [CHR 0x22]"

text \<open>
  Results and the semantic collaborator's answer are plain JavaScript objects; an object
  is the list of its own properties in insertion order.
\<close>

datatype jsval =
    JUndefined
  | JNull
  | JBool bool
  | JNum int
  | JStr string
  | JArr "jsval list"
  | JObj "(string \<times> jsval) list"

type_synonym jsobj = "(string \<times> jsval) list"

fun truthy :: "jsval \<Rightarrow> bool" where
  "truthy JUndefined = False"
| "truthy JNull = False"
| "truthy (JBool b) = b"
| "truthy (JNum n) = (n \<noteq> 0)"
| "truthy (JStr s) = (s \<noteq> [])"
| "truthy (JArr xs) = True"
| "truthy (JObj ps) = True"

text \<open>\<open>o.k\<close> on an object: the property's value, \<open>undefined\<close> when there is none.\<close>

definition getProp :: "jsobj \<Rightarrow> string \<Rightarrow> jsval" where
  "getProp ps k = (case map_of ps k of None \<Rightarrow> JUndefined | Some v \<Rightarrow> v)"

text \<open>\<open>v?.k\<close> for the property names read here (\<open>status\<close>): \<open>undefined\<close> on
  \<open>null\<close> and \<open>undefined\<close> by the optional chaining, and on booleans, numbers,
  strings and arrays because they carry no such property.\<close>

fun optGet :: "jsval \<Rightarrow> string \<Rightarrow> jsval" where
  "optGet (JObj ps) k = getProp ps k"
| "optGet v k = JUndefined"

definition jsStrings :: "string list \<Rightarrow> jsval" where
  "jsStrings xs = JArr (map JStr xs)"

text \<open>\<open>xs.join(sep)\<close> and \<open>s.split(sep)\<close> for a one-character separator.\<close>

fun join :: "string \<Rightarrow> string list \<Rightarrow> string" where
  "join sep [] = []"
| "join sep [x] = x"
| "join sep (x # y # ys) = x @ sep @ join sep (y # ys)"

fun splitOn :: "(char \<Rightarrow> bool) \<Rightarrow> string \<Rightarrow> string list" where
  "splitOn P [] = [[]]"
| "splitOn P (c # cs) =
     (if P c then [] # splitOn P cs
      else (case splitOn P cs of [] \<Rightarrow> [[c]] | l # ls \<Rightarrow> (c # l) # ls))"

definition split :: "char \<Rightarrow> string \<Rightarrow> string list" where
  "split sep s = splitOn (\<lambda>c. c = sep) s"

text \<open>\<open>s.replace(/\/$/, '')\<close>: one slash at the very end of the string is dropped.\<close>

definition dropTrailingSlash :: "string \<Rightarrow> string" where
  "dropTrailingSlash s = (if s \<noteq> [] \<and> last s = CHR ''/'' then butlast s else s)"

definition isDigit :: "char \<Rightarrow> bool" where
  "isDigit c = (let n = (of_char c :: nat) in 48 \<le> n \<and> n \<le> 57)"

definition isLowerAlpha :: "char \<Rightarrow> bool" where
  "isLowerAlpha c = (let n = (of_char c :: nat) in 97 \<le> n \<and> n \<le> 122)"

definition isUpperAlpha :: "char \<Rightarrow> bool" where
  "isUpperAlpha c = (let n = (of_char c :: nat) in 65 \<le> n \<and> n \<le> 90)"

definition isAlnum :: "char \<Rightarrow> bool" where
  "isAlnum c = (isDigit c \<or> isLowerAlpha c \<or> isUpperAlpha c)"

section \<open>The platform's URL class\<close>

text \<open>
  What the services read and change of a \<open>URL\<close> object: \<open>origin\<close>, \<open>pathname\<close>,
  the live \<open>searchParams\<close> list and the serialisation \<open>toString()\<close>. The
  serialisation is \<open>beforeQuery\<close> (scheme, authority and path), then \<open>?\<close> and the
  query when the query is not null, then \<open>#\<close> and the fragment when it is not null.
\<close>

record url =
  origin :: string
  pathname :: string
  beforeQuery :: string
  searchParams :: "(string \<times> string) list"
  query :: "string option"
  fragment :: "string option"

text \<open>The constructor \<open>new URL(s)\<close> is a parameter of the functions that call it:
  \<open>None\<close> is the \<open>TypeError\<close> it throws on a string that is not a URL.\<close>

type_synonym url_ctor = "string \<Rightarrow> url option"

definition toString :: "url \<Rightarrow> string" where
  "toString u =
     beforeQuery u
     @ (case query u of None \<Rightarrow> [] | Some q \<Rightarrow> ''?'' @ q)
     @ (case fragment u of None \<Rightarrow> [] | Some f \<Rightarrow> ''#'' @ f)"

text \<open>The \<open>application/x-www-form-urlencoded\<close> serialiser that every change of
  \<open>searchParams\<close> runs to rewrite the query: a code unit is encoded as UTF-8, a space
  becomes \<open>+\<close>, letters, digits and \<open>*-._\<close> stay, any other byte becomes \<open>%XX\<close>.\<close>

definition hexDigit :: "nat \<Rightarrow> char" where
  "hexDigit d = (if d < 16 then ''0123456789ABCDEF'' ! d else CHR ''0'')"

definition percentByte :: "nat \<Rightarrow> string" where
  "percentByte b = [CHR ''%'', hexDigit (b div 16), hexDigit (b mod 16)]"

definition utf8 :: "char \<Rightarrow> nat list" where
  "utf8 c = (let n = (of_char c :: nat)
             in if n < 128 then [n] else [192 + n div 64, 128 + n mod 64])"

definition urlencodedChar :: "char \<Rightarrow> string" where
  "urlencodedChar c =
     (if c = CHR '' '' then ''+''
      else if isAlnum c \<or> c \<in> set ''*-._'' then [c]
      else concat (map percentByte (utf8 c)))"

definition urlencoded :: "string \<Rightarrow> string" where
  "urlencoded s = concat (map urlencodedChar s)"

definition urlencodedSerialize :: "(string \<times> string) list \<Rightarrow> string" where
  "urlencodedSerialize ps = join ''&'' (map (\<lambda>(k, v). urlencoded k @ ''='' @ urlencoded v) ps)"

text \<open>\<open>searchParams.delete(name)\<close>: every pair of that name leaves the list, and the
  update steps set the URL's query to the serialised list (to null when it is empty).\<close>

definition searchParams_delete :: "string \<Rightarrow> url \<Rightarrow> url" where
  "searchParams_delete name u =
     (let list = filter (\<lambda>(k, v). k \<noteq> name) (searchParams u);
          serialized = urlencodedSerialize list
      in u\<lparr>searchParams := list,
           query := (if serialized = [] then None else Some serialized)\<rparr>)"

subsection \<open>A reference constructor\<close>

text \<open>
  \<open>parseURL\<close> builds the URL object for the plain absolute URLs
  \<open>http(s)://host/path?query#fragment\<close> on which the URL parser changes nothing: a
  host of dot-separated labels of lower-case letters and digits whose last label starts
  with a letter, no credentials and no port, a path of letters, digits and \<open>/_.-\<close>
  without dot segments, a query of letters, digits and \<open>*-._&=\<close>, a fragment of
  letters, digits and \<open>-._\<close>. It is used only to run the functions on concrete
  strings of that grammar, where it agrees with the platform, and on strings without a
  scheme, which the platform rejects as \<open>parseURL\<close> does. The platform accepts more
  (ports, upper-case schemes and hosts, hyphens, percent escapes); on those
  \<open>parseURL\<close> answers \<open>None\<close> too and is not a model of the platform, which is
  why the general statements below take the constructor as a parameter.
\<close>

fun splitFirst :: "char \<Rightarrow> string \<Rightarrow> string \<times> string option" where
  "splitFirst sep [] = ([], None)"
| "splitFirst sep (c # cs) =
     (if c = sep then ([], Some cs)
      else (case splitFirst sep cs of (a, b) \<Rightarrow> (c # a, b)))"

definition validHost :: "string \<Rightarrow> bool" where
  "validHost h =
     (let labels = split (CHR ''.'') h
      in list_all (\<lambda>l. l \<noteq> [] \<and> list_all (\<lambda>c. isLowerAlpha c \<or> isDigit c) l) labels
         \<and> (case last labels of [] \<Rightarrow> False | c # cs \<Rightarrow> isLowerAlpha c))"

definition validPath :: "string \<Rightarrow> bool" where
  "validPath p =
     (list_all (\<lambda>c. isAlnum c \<or> c \<in> set ''/_.-'') p
      \<and> list_all (\<lambda>seg. seg \<noteq> ''.'' \<and> seg \<noteq> ''..'') (split (CHR ''/'') p))"

definition validQuery :: "string \<Rightarrow> bool" where
  "validQuery q = list_all (\<lambda>c. isAlnum c \<or> c \<in> set ''*-._&='') q"

definition validFragment :: "string \<Rightarrow> bool" where
  "validFragment f = list_all (\<lambda>c. isAlnum c \<or> c \<in> set ''-._'') f"

text \<open>The \<open>application/x-www-form-urlencoded\<close> parser on such a query: the pieces
  between \<open>&\<close>, empty ones skipped, each cut at its first \<open>=\<close>.\<close>

definition urlencodedParse :: "string \<Rightarrow> (string \<times> string) list" where
  "urlencodedParse q =
     map (\<lambda>piece. case splitFirst (CHR ''='') piece of
                    (k, None) \<Rightarrow> (k, [])
                  | (k, Some v) \<Rightarrow> (k, v))
         (filter (\<lambda>piece. piece \<noteq> []) (split (CHR ''&'') q))"

definition parseScheme :: "string \<Rightarrow> (string \<times> string) option" where
  "parseScheme s =
     (if startsWith s ''https://'' then Some (''https'', drop 8 s)
      else if startsWith s ''http://'' then Some (''http'', drop 7 s)
      else None)"

definition parseURL :: url_ctor where
  "parseURL s =
     (case parseScheme s of
        None \<Rightarrow> None
      | Some (scheme, rest) \<Rightarrow>
          (case splitFirst (CHR ''#'') rest of (beforeFragment, frag) \<Rightarrow>
           case splitFirst (CHR ''?'') beforeFragment of (beforeQ, q) \<Rightarrow>
             let host = takeWhile (\<lambda>c. c \<noteq> CHR ''/'') beforeQ;
                 rawPath = dropWhile (\<lambda>c. c \<noteq> CHR ''/'') beforeQ;
                 path = (if rawPath = [] then ''/'' else rawPath)
             in if validHost host \<and> validPath path
                   \<and> (case q of None \<Rightarrow> True | Some qs \<Rightarrow> validQuery qs)
                   \<and> (case frag of None \<Rightarrow> True | Some f \<Rightarrow> validFragment f)
                then Some \<lparr>origin = scheme @ ''://'' @ host,
                           pathname = path,
                           beforeQuery = scheme @ ''://'' @ host @ path,
                           searchParams = (case q of None \<Rightarrow> [] | Some qs \<Rightarrow> urlencodedParse qs),
                           query = q,
                           fragment = frag\<rparr>
                else None))"

section \<open>The email fetcher: URL canonicalisation\<close>

definition trackingParams :: "string list" where
  "trackingParams =
     [''utm_source'', ''utm_medium'', ''utm_campaign'', ''utm_term'', ''utm_content'',
      ''elqTrack'', ''elqTrackId'', ''mkt_tok'', ''mc_cid'', ''mc_eid'',
      ''sfmc_id'', ''subscriber_id'', ''contact_id'', ''lead_id'',
      ''_hsenc'', ''_hsmi'', ''hsa_'', ''fbclid'', ''gclid'', ''msclkid'',
      ''trk'', ''track'', ''tracking'', ''ref'', ''source'']"

text \<open>
  The inner loop \<open>for (const [key] of urlObj.searchParams)\<close>. The iterator is live:
  it holds an index into the list, and each step reads the pair at that index of the list
  as it is then, so a \<open>delete\<close> in the body shortens the list under the iterator.
\<close>

function forOfKeys :: "string \<Rightarrow> nat \<Rightarrow> url \<Rightarrow> url" where
  "forOfKeys param i urlObj =
     (if i < length (searchParams urlObj) then
        (let key = fst (searchParams urlObj ! i)
         in forOfKeys param (Suc i)
              (if startsWith (toLowerCase key) (toLowerCase param)
               then searchParams_delete key urlObj else urlObj))
      else urlObj)"
  by pat_completeness auto
termination
proof (relation "measure (\<lambda>(param, i, u). length (searchParams u) - i)")
  fix param :: string and i :: nat and urlObj :: url and key :: string
  assume i: "i < length (searchParams urlObj)"
  have "length (searchParams (searchParams_delete key urlObj)) \<le> length (searchParams urlObj)"
    by (simp add: searchParams_delete_def Let_def)
  with i have "length (searchParams (searchParams_delete key urlObj)) - Suc i
                 < length (searchParams urlObj) - i"
    by arith
  with i show "((param, Suc i,
           if startsWith (toLowerCase key) (toLowerCase param)
           then searchParams_delete key urlObj else urlObj),
          param, i, urlObj)
         \<in> measure (\<lambda>(param, i, u). length (searchParams u) - i)"
    by auto
qed simp

text \<open>The body of \<open>trackingParams.forEach\<close> for one entry of the list.\<close>

definition stripParam :: "string \<Rightarrow> url \<Rightarrow> url" where
  "stripParam param urlObj = forOfKeys param 0 (searchParams_delete param urlObj)"

definition stripTrackingParams :: "url_ctor \<Rightarrow> string \<Rightarrow> string" where
  "stripTrackingParams newURL url =
     (case newURL url of
        None \<Rightarrow> url
      | Some urlObj \<Rightarrow> toString (fold stripParam trackingParams urlObj))"

section \<open>The parsed document\<close>

text \<open>
  The handle \<open>$\<close> that \<open>cheerio.load\<close> returns is the parsed document: a forest of
  elements (tag name, attributes, children) and text nodes. Selections are lists of
  elements in document order.
\<close>

datatype node =
    Element string "(string \<times> string) list" "node list"
  | Text string

text \<open>\<open>.text()\<close>: the text nodes below an element, concatenated.\<close>

fun textOf :: "node \<Rightarrow> string" where
  "textOf (Text s) = s"
| "textOf (Element t as cs) = concat (map textOf cs)"

text \<open>\<open>.attr(name)\<close>; \<open>None\<close> is \<open>undefined\<close>.\<close>

fun attr :: "node \<Rightarrow> string \<Rightarrow> string option" where
  "attr (Element t as cs) name = map_of as name"
| "attr (Text s) name = None"

text \<open>Every element of a subtree in document order, with its ancestors (nearest first).\<close>

fun elementsOf :: "node list \<Rightarrow> node \<Rightarrow> (node list \<times> node) list" where
  "elementsOf anc (Text s) = []"
| "elementsOf anc (Element t as cs) =
     (anc, Element t as cs) # concat (map (elementsOf (Element t as cs # anc)) cs)"

definition allElements :: "node list \<Rightarrow> (node list \<times> node) list" where
  "allElements doc = concat (map (elementsOf []) doc)"

text \<open>
  The selectors the fetcher uses: \<open>a\<close> is \<open>Tag ''a''\<close>, \<open>.btn\<close> is \<open>Class ''btn''\<close>,
  \<open>#footer\<close> is \<open>Id ''footer''\<close>, \<open>[class*="btn"]\<close> is \<open>AttrContains ''class'' ''btn''\<close>,
  \<open>a.btn\<close> is \<open>Both (Tag ''a'') (Class ''btn'')\<close> and \<open>.btn a\<close> (an \<open>a\<close> below a
  \<open>.btn\<close>) is \<open>Inside (Class ''btn'') (Tag ''a'')\<close>. A comma-separated group is a list.
\<close>

datatype selector =
    Tag string
  | Class string
  | Id string
  | AttrContains string string
  | Both selector selector
  | Inside selector selector

definition classTokens :: "string \<Rightarrow> string list" where
  "classTokens v = filter (\<lambda>w. w \<noteq> []) (splitOn isSpace v)"

fun matches :: "selector \<Rightarrow> node list \<Rightarrow> node \<Rightarrow> bool" where
  "matches (Tag t) anc el = (case el of Element n as cs \<Rightarrow> n = t | Text s \<Rightarrow> False)"
| "matches (Class c) anc el =
     (case attr el ''class'' of None \<Rightarrow> False | Some v \<Rightarrow> c \<in> set (classTokens v))"
| "matches (Id i) anc el = (attr el ''id'' = Some i)"
| "matches (AttrContains a v) anc el =
     (case attr el a of None \<Rightarrow> False | Some x \<Rightarrow> includesStr x v)"
| "matches (Both p q) anc el = (matches p anc el \<and> matches q anc el)"
| "matches (Inside p q) anc el =
     (matches q anc el
      \<and> list_ex (\<lambda>k. matches p (drop (Suc k) anc) (anc ! k)) [0..<length anc])"

text \<open>\<open>$(group)\<close>: the elements that match a selector of the group, each once, in
  document order.\<close>

definition select :: "selector list \<Rightarrow> node list \<Rightarrow> node list" where
  "select sels doc =
     map snd (filter (\<lambda>(anc, el). list_ex (\<lambda>s. matches s anc el) sels) (allElements doc))"

text \<open>\<open>$('body').text()\<close>\<close>

definition bodyText :: "node list \<Rightarrow> string" where
  "bodyText doc = concat (map textOf (select [Tag ''body''] doc))"

section \<open>The email fetcher: content extraction\<close>

record cta =
  ctaText :: string
  ctaUrl :: string
  cleanUrl :: string

definition ctaSelectors :: "selector list" where
  "ctaSelectors =
     [Both (Tag ''a'') (Class ''button''), Both (Tag ''a'') (Class ''btn''),
      Both (Tag ''a'') (Class ''cta''),
      Both (Tag ''a'') (AttrContains ''class'' ''button''),
      Both (Tag ''a'') (AttrContains ''class'' ''btn''),
      Both (Tag ''a'') (AttrContains ''class'' ''cta''),
      Both (Tag ''a'') (AttrContains ''style'' ''background''),
      Inside (Class ''button'') (Tag ''a''), Inside (Class ''btn'') (Tag ''a''),
      Inside (Class ''cta'') (Tag ''a'')]"

text \<open>\<open>$el.attr('href') || ''\<close>\<close>

definition hrefOf :: "node \<Rightarrow> string" where
  "hrefOf el = (case attr el ''href'' of None \<Rightarrow> [] | Some h \<Rightarrow> h)"

text \<open>The test of the regular expression \<open>/^(shop|buy|...|save)/i\<close>.\<close>

definition ctaKeywords :: "string \<Rightarrow> bool" where
  "ctaKeywords s =
     list_ex (\<lambda>w. startsWith (toLowerCase s) w)
       [''shop'', ''buy'', ''get'', ''learn'', ''discover'', ''start'', ''try'', ''sign'',
        ''register'', ''subscribe'', ''download'', ''view'', ''see'', ''explore'',
        ''claim'', ''grab'', ''save'']"

text \<open>The callback of the first \<open>each\<close> (button-like elements).\<close>

definition pushButton :: "url_ctor \<Rightarrow> node \<Rightarrow> cta list \<Rightarrow> cta list" where
  "pushButton newURL el ctas =
     (let t = trim (textOf el); href = hrefOf el
      in if t \<noteq> [] \<and> href \<noteq> []
         then ctas @ [\<lparr>ctaText = t, ctaUrl = href, cleanUrl = stripTrackingParams newURL href\<rparr>]
         else ctas)"

text \<open>The callback of the second \<open>each\<close> (every anchor).\<close>

definition pushProminent :: "url_ctor \<Rightarrow> node \<Rightarrow> cta list \<Rightarrow> cta list" where
  "pushProminent newURL el ctas =
     (let t = trim (textOf el); href = hrefOf el
      in if t \<noteq> [] \<and> href \<noteq> [] \<and> ctaKeywords t \<and> find (\<lambda>c. ctaText c = t) ctas = None
         then ctas @ [\<lparr>ctaText = t, ctaUrl = href, cleanUrl = stripTrackingParams newURL href\<rparr>]
         else ctas)"

text \<open>For stating properties: the entry that either callback pushes for an element,
  and the test \<open>text && href\<close> both callbacks make.\<close>

definition ctaOf :: "url_ctor \<Rightarrow> node \<Rightarrow> cta" where
  "ctaOf newURL el =
     \<lparr>ctaText = trim (textOf el), ctaUrl = hrefOf el,
      cleanUrl = stripTrackingParams newURL (hrefOf el)\<rparr>"

definition hasTextAndHref :: "node \<Rightarrow> bool" where
  "hasTextAndHref el = (trim (textOf el) \<noteq> [] \<and> hrefOf el \<noteq> [])"

text \<open>For stating properties: an anchor that passes the tests of the second callback on
  the element alone (text, href, leading action verb); each element of a list paired
  with the elements before it; and the anchors that are fresh, that is, action anchors
  whose trimmed text is neither in \<open>seen\<close> nor the trimmed text of an earlier action
  anchor.\<close>

definition actionAnchor :: "node \<Rightarrow> bool" where
  "actionAnchor el = (hasTextAndHref el \<and> ctaKeywords (trim (textOf el)))"

fun withEarlier :: "'a list \<Rightarrow> 'a list \<Rightarrow> ('a list \<times> 'a) list" where
  "withEarlier earlier [] = []"
| "withEarlier earlier (x # xs) = (earlier, x) # withEarlier (earlier @ [x]) xs"

definition freshAnchors :: "string list \<Rightarrow> node list \<Rightarrow> node list" where
  "freshAnchors seen anchors =
     map snd
       (filter (\<lambda>(earlier, el).
                  actionAnchor el
                  \<and> trim (textOf el) \<notin> set seen
                  \<and> trim (textOf el) \<notin> set (map (\<lambda>e. trim (textOf e)) (filter actionAnchor earlier)))
          (withEarlier [] anchors))"

definition extractCTAs :: "url_ctor \<Rightarrow> node list \<Rightarrow> cta list" where
  "extractCTAs newURL doc =
     fold (pushProminent newURL) (select [Tag ''a''] doc)
       (fold (pushButton newURL) (select ctaSelectors doc) [])"

record unsubscribe =
  hasText :: bool
  hasLink :: bool
  found :: bool

definition findUnsubscribe :: "node list \<Rightarrow> unsubscribe" where
  "findUnsubscribe doc =
     (let unsubText = toLowerCase (bodyText doc);
          hasUnsubText = (includesStr unsubText ''unsubscribe''
                          \<or> includesStr unsubText ''opt out''
                          \<or> includesStr unsubText ''opt-out'');
          unsubLink = (length (select
                         [Both (Tag ''a'') (AttrContains ''href'' ''unsubscribe''),
                          Both (Tag ''a'') (AttrContains ''href'' ''optout''),
                          Both (Tag ''a'') (AttrContains ''href'' ''opt-out'')] doc) > 0)
      in \<lparr>hasText = hasUnsubText, hasLink = unsubLink,
          found = (hasUnsubText \<or> unsubLink)\<rparr>)"

definition footerSelectors :: "selector list" where
  "footerSelectors =
     [Tag ''footer'', Class ''footer'', AttrContains ''class'' ''footer'', Id ''footer'']"

text \<open>The loop over \<open>footerSelectors\<close>: the trimmed text of the first element of the
  first selector that selects anything; the empty string when none does.\<close>

fun firstFooter :: "selector list \<Rightarrow> node list \<Rightarrow> string" where
  "firstFooter [] doc = []"
| "firstFooter (sel # rest) doc =
     (case select [sel] doc of
        [] \<Rightarrow> firstFooter rest doc
      | footer # others \<Rightarrow> trim (textOf footer))"

definition extractFooter :: "node list \<Rightarrow> string" where
  "extractFooter doc =
     (let footerText = firstFooter footerSelectors doc
      in if footerText = [] then
           (let allText = bodyText doc;
                lines = filter (\<lambda>l. trim l \<noteq> []) (split CHR ''\<newline>'' allText)
            in join ''\<newline>'' (drop (length lines - 5) lines))
         else footerText)"

section \<open>functionComparator.js\<close>

text \<open>The fields of the parsed email and of the configuration that the comparator
  reads. A configuration entry may be missing (\<open>None\<close> is \<open>undefined\<close>).\<close>

record emailContent =
  emailText :: string
  ctaButtons :: "cta list"
  hasUnsubscribe :: "unsubscribe option"
  footer :: string

record config =
  ctaTexts :: "string list option"
  ctaUrls :: "string list option"
  unsubscribeText :: "string option"
  footerTexts :: "string list option"
  requiredKeywords :: "string list option"

text \<open>\<open>!xs || xs.length === 0\<close>\<close>

definition unconfigured :: "string list option \<Rightarrow> bool" where
  "unconfigured xs = (case xs of None \<Rightarrow> True | Some l \<Rightarrow> length l = 0)"

text \<open>A parameter with the default value \<open>[]\<close>.\<close>

definition orEmpty :: "string list option \<Rightarrow> string list" where
  "orEmpty xs = (case xs of None \<Rightarrow> [] | Some l \<Rightarrow> l)"

text \<open>The loops that sort the expected items into two arrays: the items for which the
  test holds are pushed (as they are) on the first, a message for each other item on the
  second.\<close>

definition sortInto ::
  "(string \<Rightarrow> bool) \<Rightarrow> (string \<Rightarrow> string) \<Rightarrow> string list \<Rightarrow> string list \<times> string list" where
  "sortInto test msg items =
     fold (\<lambda>item (hits, others).
             if test item then (hits @ [item], others) else (hits, others @ [msg item]))
          items ([], [])"

definition statusOf :: "string list \<Rightarrow> jsval" where
  "statusOf issues = JStr (if length issues = 0 then ''PASS'' else ''FAIL'')"

definition compareCTAText :: "string \<Rightarrow> cta list \<Rightarrow> string list option \<Rightarrow> jsobj" where
  "compareCTAText documentText emailCTAs expectedCTAs =
     (if unconfigured expectedCTAs then
        [(''status'', JStr ''PASS''),
         (''message'', JStr ''No specific CTAs configured for comparison''),
         (''found'', jsStrings (map ctaText emailCTAs))]
      else
        (let emailCTATexts = map (\<lambda>c. trim (toLowerCase (ctaText c))) emailCTAs;
             (matched, issues) =
               sortInto
                 (\<lambda>expectedCTA.
                    let normalizedExpected = trim (toLowerCase expectedCTA)
                    in list_ex (\<lambda>t. t = normalizedExpected
                                      \<or> includesStr t normalizedExpected
                                      \<or> includesStr normalizedExpected t) emailCTATexts)
                 (\<lambda>expectedCTA. ''CTA '' @ dq @ expectedCTA @ dq @ '' not found in email'')
                 (orEmpty expectedCTAs)
         in [(''status'', statusOf issues),
             (''expected'', jsStrings (orEmpty expectedCTAs)),
             (''found'', jsStrings (map ctaText emailCTAs)),
             (''matched'', jsStrings matched),
             (''issues'', jsStrings issues)]))"

definition normalizeUrl :: "url_ctor \<Rightarrow> string \<Rightarrow> string" where
  "normalizeUrl newURL url =
     (case newURL url of
        Some urlObj \<Rightarrow> toLowerCase (origin urlObj) @ dropTrailingSlash (pathname urlObj)
      | None \<Rightarrow> dropTrailingSlash (toLowerCase url))"

definition compareCTAUrls :: "url_ctor \<Rightarrow> cta list \<Rightarrow> string list option \<Rightarrow> jsobj" where
  "compareCTAUrls newURL emailCTAs expectedUrls =
     (if unconfigured expectedUrls then
        [(''status'', JStr ''PASS''),
         (''message'', JStr ''No specific URLs configured for comparison''),
         (''found'', jsStrings (map cleanUrl emailCTAs))]
      else
        (let (matched, issues) =
               sortInto
                 (\<lambda>expectedUrl.
                    let cleanExpected = normalizeUrl newURL expectedUrl
                    in list_ex (\<lambda>c. let cleanFound = normalizeUrl newURL (cleanUrl c)
                                      in cleanFound = cleanExpected
                                         \<or> includesStr cleanFound cleanExpected
                                         \<or> includesStr cleanExpected cleanFound) emailCTAs)
                 (\<lambda>expectedUrl. ''URL '' @ dq @ expectedUrl @ dq @ '' not found in email CTAs'')
                 (orEmpty expectedUrls)
         in [(''status'', statusOf issues),
             (''expected'', jsStrings (orEmpty expectedUrls)),
             (''found'', jsStrings (map cleanUrl emailCTAs)),
             (''matched'', jsStrings matched),
             (''issues'', jsStrings issues)]))"

text \<open>\<open>emailContent.hasUnsubscribe?.found\<close> and its two siblings, read as conditions.\<close>

definition signal :: "(unsubscribe \<Rightarrow> bool) \<Rightarrow> emailContent \<Rightarrow> bool" where
  "signal field ec = (case hasUnsubscribe ec of None \<Rightarrow> False | Some u \<Rightarrow> field u)"

definition checkUnsubscribe :: "emailContent \<Rightarrow> string option \<Rightarrow> jsobj" where
  "checkUnsubscribe ec requiredTextArg =
     (let requiredText = (case requiredTextArg of None \<Rightarrow> ''unsubscribe'' | Some t \<Rightarrow> t);
          hasUnsub = signal found ec;
          textLower = toLowerCase (emailText ec);
          hasRequiredText = includesStr textLower (toLowerCase requiredText)
      in if \<not> hasUnsub \<and> \<not> hasRequiredText then
           [(''status'', JStr ''FAIL''),
            (''message'', JStr ''No unsubscribe link or text found''),
            (''required'', JStr requiredText),
            (''issues'', jsStrings [''Missing unsubscribe link/text - COMPLIANCE ISSUE''])]
         else
           [(''status'', JStr ''PASS''),
            (''hasLink'', JBool (signal hasLink ec \<or> False)),
            (''hasText'', JBool (signal hasText ec \<or> hasRequiredText))])"

definition defaultCompliance :: "string list" where
  "defaultCompliance = [''all rights reserved'', ''privacy policy'', ''terms'']"

definition checkFooter :: "string \<Rightarrow> string \<Rightarrow> string list option \<Rightarrow> jsobj" where
  "checkFooter footerText fullText requiredTextsArg =
     (let requiredTexts = orEmpty requiredTextsArg;
          textsToCheck = (if length requiredTexts > 0 then requiredTexts else defaultCompliance);
          searchText = toLowerCase (footerText @ '' '' @ fullText);
          (found, issues) =
            sortInto (\<lambda>t. includesStr searchText (toLowerCase t))
              (\<lambda>t. ''Required footer text '' @ dq @ t @ dq @ '' not found'')
              textsToCheck
      in if length found = 0 \<and> length requiredTexts > 0 then
           [(''status'', JStr ''FAIL''),
            (''required'', jsStrings textsToCheck),
            (''found'', JArr []),
            (''issues'', jsStrings issues)]
         else
           [(''status'', statusOf issues),
            (''required'', jsStrings textsToCheck),
            (''found'', jsStrings found),
            (''issues'', jsStrings issues)])"

definition checkKeywords :: "string \<Rightarrow> string list option \<Rightarrow> jsobj" where
  "checkKeywords emailTxt keywords =
     (if unconfigured keywords then
        [(''status'', JStr ''PASS''),
         (''message'', JStr ''No specific keywords configured for comparison'')]
      else
        (let textLower = toLowerCase emailTxt;
             (found, missing) =
               sortInto (\<lambda>keyword. includesStr textLower (toLowerCase keyword))
                 (\<lambda>keyword. keyword) (orEmpty keywords)
         in [(''status'', statusOf missing),
             (''required'', jsStrings (orEmpty keywords)),
             (''found'', jsStrings found),
             (''missing'', jsStrings missing),
             (''issues'', jsStrings
                (map (\<lambda>k. ''Required keyword '' @ dq @ k @ dq @ '' not found in email'')
                   missing))]))"

definition compare :: "url_ctor \<Rightarrow> string \<Rightarrow> emailContent \<Rightarrow> config \<Rightarrow> jsobj" where
  "compare newURL documentText ec cfg =
     [(''cta_text'', JObj (compareCTAText documentText (ctaButtons ec) (ctaTexts cfg))),
      (''cta_url'', JObj (compareCTAUrls newURL (ctaButtons ec) (ctaUrls cfg))),
      (''unsubscribe'', JObj (checkUnsubscribe ec (unsubscribeText cfg))),
      (''footer'', JObj (checkFooter (footer ec) (emailText ec) (footerTexts cfg))),
      (''keywords'', JObj (checkKeywords (emailText ec) (requiredKeywords cfg)))]"

section \<open>reportGenerator.js\<close>

text \<open>The loop over \<open>Object.entries(semanticResults)\<close> of
  \<open>determineOverallStatus\<close>; \<open>True\<close> when the loop returns \<open>'FAIL'\<close>.\<close>

fun anyFieldFails :: "jsobj \<Rightarrow> bool" where
  "anyFieldFails [] = False"
| "anyFieldFails ((key, result) # rest) =
     (if optGet result ''status'' = JStr ''FAIL'' then True else anyFieldFails rest)"

text \<open>\<open>semanticResults\<close> is \<open>null\<close> (\<open>None\<close>) or an object.\<close>

definition determineOverallStatus :: "jsobj \<Rightarrow> jsobj option \<Rightarrow> bool \<Rightarrow> string" where
  "determineOverallStatus functionResults semanticResults functionPassed =
     (if \<not> functionPassed then ''FAIL''
      else if (case semanticResults of None \<Rightarrow> False
               | Some sr \<Rightarrow> \<not> truthy (getProp sr ''overall_match'')) then ''FAIL''
      else if (case semanticResults of None \<Rightarrow> False | Some sr \<Rightarrow> anyFieldFails sr)
        then ''FAIL''
      else ''PASS'')"

section \<open>Example documents\<close>

text \<open>A body with a paragraph and one link to an opt-out page; the word "unsubscribe"
  occurs nowhere in its text.\<close>

definition optoutDoc :: "node list" where
  "optoutDoc =
     [Element ''html'' []
        [Element ''body'' []
           [Element ''p'' [] [Text ''Spring sale''],
            Element ''a'' [(''href'', ''https://x.test/optout'')] [Text ''Manage'']]]]"

text \<open>A body with two button-styled links that carry the same label.\<close>

definition twoButtonsDoc :: "node list" where
  "twoButtonsDoc =
     [Element ''html'' []
        [Element ''body'' []
           [Element ''a'' [(''class'', ''btn''), (''href'', ''https://x.test/a'')] [Text ''Shop''],
            Element ''a'' [(''class'', ''btn''), (''href'', ''https://x.test/b'')] [Text ''Shop''],
            Element ''a'' [(''href'', ''https://x.test/c'')] [Text ''Shop''],
            Element ''a'' [(''href'', ''https://x.test/d'')] [Text ''Buy''],
            Element ''a'' [(''href'', ''https://x.test/e'')] [Text ''Buy'']]]]"

text \<open>A body without any footer element whose text has seven non-blank lines and one
  blank line.\<close>

definition sevenLinesDoc :: "node list" where
  "sevenLinesDoc =
     [Element ''html'' []
        [Element ''body'' []
           [Element ''p'' [] [Text ''l1\<newline>l2\<newline>  \<newline>l3\<newline>''],
            Element ''p'' [] [Text ''l4\<newline>l5\<newline>l6\<newline>l7'']]]]"

section \<open>Properties of the report generator\<close>

lemma anyFieldFails_iff:
  "anyFieldFails sr = (\<exists>r \<in> snd ` set sr. optGet r ''status'' = JStr ''FAIL'')"
  by (induction sr rule: anyFieldFails.induct) auto

text \<open>
  Claim C1. The overall status is FAIL whenever the function checks did not pass,
  whatever the semantic result is. When they passed and a semantic result is present,
  the status is FAIL exactly when its \<open>overall_match\<close> flag is false (for a flag that
  is a boolean; any falsy or missing flag counts as false) or the \<open>status\<close> of
  some entry of the result is \<open>'FAIL'\<close>; in every other case, a \<open>null\<close> semantic
  result included, it is PASS.
\<close>

theorem determineOverallStatus_spec:
  "determineOverallStatus fr sem passed =
     (if \<not> passed then ''FAIL''
      else case sem of
        None \<Rightarrow> ''PASS''
      | Some sr \<Rightarrow>
          if \<not> truthy (getProp sr ''overall_match'')
             \<or> (\<exists>r \<in> snd ` set sr. optGet r ''status'' = JStr ''FAIL'')
          then ''FAIL'' else ''PASS'')"
  by (simp add: determineOverallStatus_def anyFieldFails_iff split: option.split)

theorem determineOverallStatus_spec_witness:
  "determineOverallStatus []
     (Some [(''headings'', JObj [(''status'', JStr ''PASS'')]),
            (''overall_match'', JBool True)]) False = ''FAIL''
   \<and> determineOverallStatus [] None True = ''PASS''
   \<and> determineOverallStatus []
     (Some [(''headings'', JObj [(''status'', JStr ''PASS'')]),
            (''overall_match'', JBool True)]) True = ''PASS''
   \<and> determineOverallStatus []
     (Some [(''headings'', JObj [(''status'', JStr ''FAIL'')]),
            (''overall_match'', JBool True)]) True = ''FAIL''
   \<and> determineOverallStatus []
     (Some [(''headings'', JObj [(''status'', JStr ''PASS'')]),
            (''overall_match'', JBool False)]) True = ''FAIL''"
  by (simp add: determineOverallStatus_spec getProp_def)

section \<open>Properties of the comparator\<close>

lemma fold_sortInto:
  "fold (\<lambda>item (hits, others).
           if test item then (hits @ [item], others) else (hits, others @ [msg item]))
        items (h, r)
   = (h @ filter test items, r @ map msg (filter (\<lambda>x. \<not> test x) items))"
  by (induction items arbitrary: h r) auto

lemma sortInto_eq:
  "sortInto test msg items = (filter test items, map msg (filter (\<lambda>x. \<not> test x) items))"
  by (simp add: sortInto_def fold_sortInto)

lemma getProp_status: "getProp ((''status'', v) # rest) ''status'' = v"
  by (simp add: getProp_def)

lemma checkFooter_status_aux:
  "getProp (checkFooter footerText fullText arg) ''status'' =
     (let requiredTexts = orEmpty arg;
          textsToCheck = (if length requiredTexts > 0 then requiredTexts else defaultCompliance);
          searchText = toLowerCase (footerText @ '' '' @ fullText);
          found = filter (\<lambda>t. includesStr searchText (toLowerCase t)) textsToCheck;
          missing = filter (\<lambda>t. \<not> includesStr searchText (toLowerCase t)) textsToCheck
      in if length found = 0 \<and> length requiredTexts > 0 then JStr ''FAIL''
         else JStr (if length missing = 0 then ''PASS'' else ''FAIL''))"
  unfolding checkFooter_def sortInto_eq Let_def prod.case statusOf_def
  by (simp only: getProp_status if_distrib [of "\<lambda>r. getProp r ''status''"] length_map)

lemma all_or_fail:
  "texts \<noteq> [] \<Longrightarrow>
   (if length (filter P texts) = 0 \<and> c then b
    else (if length (filter (\<lambda>t. \<not> P t) texts) = 0 then a else b))
   = (if \<forall>t \<in> set texts. P t then a else b)"
  by (cases "\<forall>t \<in> set texts. P t") (auto simp: filter_empty_conv)

lemma defaultCompliance_nonempty: "defaultCompliance \<noteq> []"
  by (simp add: defaultCompliance_def)

lemma checkFooter_status:
  "getProp (checkFooter footerText fullText arg) ''status'' =
     (if \<forall>t \<in> set (if orEmpty arg \<noteq> [] then orEmpty arg else defaultCompliance).
                includesStr (toLowerCase (footerText @ '' '' @ fullText)) (toLowerCase t)
           then JStr ''PASS'' else JStr ''FAIL'')"
proof -
  let ?texts = "if 0 < length (orEmpty arg) then orEmpty arg else defaultCompliance"
  have ne: "?texts \<noteq> []"
    using defaultCompliance_nonempty by (cases "orEmpty arg") simp_all
  have t: "?texts = (if orEmpty arg \<noteq> [] then orEmpty arg else defaultCompliance)"
    by simp
  show ?thesis
    unfolding checkFooter_status_aux Let_def if_distrib [of JStr]
    using all_or_fail [OF ne] unfolding t .
qed

lemma getProp_required:
  "getProp ((''status'', s) # (''required'', v) # rest) ''required'' = v"
  by (simp add: getProp_def)

lemma checkFooter_required:
  "getProp (checkFooter footerText fullText arg) ''required'' =
     jsStrings (if orEmpty arg \<noteq> [] then orEmpty arg else defaultCompliance)"
proof -
  have t: "(if 0 < length (orEmpty arg) then orEmpty arg else defaultCompliance)
           = (if orEmpty arg \<noteq> [] then orEmpty arg else defaultCompliance)"
    by simp
  show ?thesis
    unfolding checkFooter_def sortInto_eq Let_def prod.case t
    by (simp only: getProp_required if_distrib [of "\<lambda>r. getProp r ''required''"] if_cancel)
qed

lemma unconfigured_orEmpty: "unconfigured xs \<Longrightarrow> orEmpty xs = []"
  by (simp add: unconfigured_def orEmpty_def split: option.splits)

lemma lower_defaults:
  "toLowerCase ''all rights reserved'' = ''all rights reserved''"
  "toLowerCase ''privacy policy'' = ''privacy policy''"
  "toLowerCase ''terms'' = ''terms''"
  by code_simp+

text \<open>
  Claim C2. With no footer texts configured (the list is empty or missing), the footer
  check is evaluated against the built-in set "all rights reserved", "privacy policy",
  "terms": that set is what the result reports as required, and the status is PASS exactly
  when each of the three occurs in the lower-cased text made of the footer text, a space
  and the full email text; otherwise it is FAIL.
\<close>

theorem checkFooter_default_set:
  assumes "unconfigured requiredTexts"
  shows "getProp (checkFooter footerText fullText requiredTexts) ''required''
           = jsStrings [''all rights reserved'', ''privacy policy'', ''terms'']
         \<and> getProp (checkFooter footerText fullText requiredTexts) ''status''
           = (if includesStr (toLowerCase (footerText @ '' '' @ fullText)) ''all rights reserved''
                    \<and> includesStr (toLowerCase (footerText @ '' '' @ fullText)) ''privacy policy''
                    \<and> includesStr (toLowerCase (footerText @ '' '' @ fullText)) ''terms''
                   then JStr ''PASS'' else JStr ''FAIL'')"
proof -
  have e: "orEmpty requiredTexts = []"
    using assms by (rule unconfigured_orEmpty)
  have q: "(\<forall>t \<in> set defaultCompliance. P (toLowerCase t))
           = (P ''all rights reserved'' \<and> P ''privacy policy'' \<and> P ''terms'')" for P
    unfolding defaultCompliance_def list.set ball_simps lower_defaults by blast
  have r: "getProp (checkFooter footerText fullText requiredTexts) ''required''
           = jsStrings [''all rights reserved'', ''privacy policy'', ''terms'']"
    unfolding checkFooter_required e defaultCompliance_def by simp
  have s: "getProp (checkFooter footerText fullText requiredTexts) ''status''
           = (if includesStr (toLowerCase (footerText @ '' '' @ fullText)) ''all rights reserved''
                    \<and> includesStr (toLowerCase (footerText @ '' '' @ fullText)) ''privacy policy''
                    \<and> includesStr (toLowerCase (footerText @ '' '' @ fullText)) ''terms''
                   then JStr ''PASS'' else JStr ''FAIL'')"
    unfolding checkFooter_status e
    using q [of "includesStr (toLowerCase (footerText @ '' '' @ fullText))"] by simp
  from r s show ?thesis by (rule conjI)
qed

theorem checkFooter_default_set_witness:
  "unconfigured (Some [])
   \<and> getProp (checkFooter ''Acme Inc. All Rights Reserved.'' ''Read our Privacy Policy and Terms.''
        (Some [])) ''status'' = JStr ''PASS''
   \<and> getProp (checkFooter ''Acme Inc.'' ''Read our Privacy Policy and Terms.'' None)
        ''status'' = JStr ''FAIL''"
proof -
  have h: "unconfigured (Some [])" "unconfigured None"
    by (simp_all add: unconfigured_def)
  have a: "includesStr (toLowerCase (''Acme Inc. All Rights Reserved.'' @ '' ''
               @ ''Read our Privacy Policy and Terms.'')) ''all rights reserved'' = True"
    "includesStr (toLowerCase (''Acme Inc. All Rights Reserved.'' @ '' ''
               @ ''Read our Privacy Policy and Terms.'')) ''privacy policy'' = True"
    "includesStr (toLowerCase (''Acme Inc. All Rights Reserved.'' @ '' ''
               @ ''Read our Privacy Policy and Terms.'')) ''terms'' = True"
    by code_simp+
  have b: "includesStr (toLowerCase (''Acme Inc.'' @ '' ''
               @ ''Read our Privacy Policy and Terms.'')) ''all rights reserved'' = False"
    by code_simp
  have p: "getProp (checkFooter ''Acme Inc. All Rights Reserved.''
              ''Read our Privacy Policy and Terms.'' (Some [])) ''status'' = JStr ''PASS''"
    using checkFooter_default_set [OF h(1), of "''Acme Inc. All Rights Reserved.''"
            "''Read our Privacy Policy and Terms.''"]
    unfolding a by (simp only: simp_thms if_True)
  have f: "getProp (checkFooter ''Acme Inc.'' ''Read our Privacy Policy and Terms.'' None)
        ''status'' = JStr ''FAIL''"
    using checkFooter_default_set [OF h(2), of "''Acme Inc.''"
            "''Read our Privacy Policy and Terms.''"]
    unfolding b by (simp only: simp_thms if_False)
  from h(1) p f show ?thesis by (intro conjI)
qed

text \<open>
  Claim C3, as stated, fails: with the explicit list "alpha", "beta" and an email that
  contains only "alpha", one required text is found and the status is FAIL all the same.
\<close>

theorem checkFooter_explicit_counterexample:
  "getProp (checkFooter [] ''alpha'' (Some [''alpha'', ''beta''])) ''found'' = jsStrings [''alpha'']
   \<and> getProp (checkFooter [] ''alpha'' (Some [''alpha'', ''beta''])) ''status'' = JStr ''FAIL''"
  by code_simp

text \<open>
  Claim C3, amended. With an explicit non-empty list of required texts the footer check
  returns PASS exactly when every required text occurs (case-insensitively) in the search
  text and FAIL otherwise, so also when none occurs; with the default set it likewise
  returns PASS only when every default item occurs.
\<close>

theorem checkFooter_explicit_list:
  assumes "requiredTexts \<noteq> []"
  shows "getProp (checkFooter footerText fullText (Some requiredTexts)) ''status''
           = (if \<forall>t \<in> set requiredTexts.
                        includesStr (toLowerCase (footerText @ '' '' @ fullText)) (toLowerCase t)
                   then JStr ''PASS'' else JStr ''FAIL'')
         \<and> getProp (checkFooter footerText fullText None) ''status''
           = (if \<forall>t \<in> set defaultCompliance.
                        includesStr (toLowerCase (footerText @ '' '' @ fullText)) (toLowerCase t)
                   then JStr ''PASS'' else JStr ''FAIL'')"
proof -
  have a: "orEmpty (Some requiredTexts) = requiredTexts" "orEmpty None = []"
    by (simp_all add: orEmpty_def)
  show ?thesis
    unfolding checkFooter_status a using assms by simp
qed

theorem checkFooter_explicit_list_witness:
  "[''alpha'', ''beta''] \<noteq> []
   \<and> getProp (checkFooter [] ''Alpha and Beta'' (Some [''alpha'', ''beta''])) ''status'' = JStr ''PASS''
   \<and> getProp (checkFooter [] ''gamma'' (Some [''alpha'', ''beta''])) ''status'' = JStr ''FAIL''"
proof -
  have h: "[''alpha'', ''beta''] \<noteq> ([] :: string list)" by simp
  have a: "(\<forall>t \<in> set [''alpha'', ''beta''].
             includesStr (toLowerCase ([] @ '' '' @ ''Alpha and Beta'')) (toLowerCase t)) = True"
    by code_simp
  have c: "(\<forall>t \<in> set [''alpha'', ''beta''].
             includesStr (toLowerCase ([] @ '' '' @ ''gamma'')) (toLowerCase t)) = False"
    by code_simp
  have p: "getProp (checkFooter [] ''Alpha and Beta'' (Some [''alpha'', ''beta''])) ''status''
             = JStr ''PASS''"
    using checkFooter_explicit_list [OF h, of "[]" "''Alpha and Beta''", THEN conjunct1]
    unfolding a by (simp only: if_True)
  have f: "getProp (checkFooter [] ''gamma'' (Some [''alpha'', ''beta''])) ''status''
             = JStr ''FAIL''"
    using checkFooter_explicit_list [OF h, of "[]" "''gamma''", THEN conjunct1]
    unfolding c by (simp only: if_False)
  from h p f show ?thesis by (intro conjI)
qed

text \<open>
  Claim C4. When the configured CTA texts, CTA URLs and required keywords are empty or
  missing, the CTA-text check, the CTA-URL check and the keywords check each return
  PASS, whatever the email content is.
\<close>

theorem vacuous_pass:
  assumes "unconfigured (ctaTexts cfg)" and "unconfigured (ctaUrls cfg)"
    and "unconfigured (requiredKeywords cfg)"
  shows "getProp (compareCTAText documentText (ctaButtons ec) (ctaTexts cfg)) ''status'' = JStr ''PASS''
         \<and> getProp (compareCTAUrls newURL (ctaButtons ec) (ctaUrls cfg)) ''status'' = JStr ''PASS''
         \<and> getProp (checkKeywords (emailText ec) (requiredKeywords cfg)) ''status'' = JStr ''PASS''"
proof (intro conjI)
  show "getProp (compareCTAText documentText (ctaButtons ec) (ctaTexts cfg)) ''status'' = JStr ''PASS''"
    unfolding compareCTAText_def using assms(1) by (simp only: if_True getProp_status)
  show "getProp (compareCTAUrls newURL (ctaButtons ec) (ctaUrls cfg)) ''status'' = JStr ''PASS''"
    unfolding compareCTAUrls_def using assms(2) by (simp only: if_True getProp_status)
  show "getProp (checkKeywords (emailText ec) (requiredKeywords cfg)) ''status'' = JStr ''PASS''"
    unfolding checkKeywords_def using assms(3) by (simp only: if_True getProp_status)
qed

theorem vacuous_pass_witness:
  "unconfigured (ctaTexts \<lparr>ctaTexts = Some [], ctaUrls = None, unsubscribeText = None,
                            footerTexts = None, requiredKeywords = Some []\<rparr>)
   \<and> unconfigured (ctaUrls \<lparr>ctaTexts = Some [], ctaUrls = None, unsubscribeText = None,
                            footerTexts = None, requiredKeywords = Some []\<rparr>)
   \<and> unconfigured (requiredKeywords \<lparr>ctaTexts = Some [], ctaUrls = None, unsubscribeText = None,
                            footerTexts = None, requiredKeywords = Some []\<rparr>)
   \<and> getProp (compareCTAText ''Spring sale''
        [\<lparr>ctaText = ''Shop Now'', ctaUrl = ''https://shop.test/sale?utm_campaign=x'',
          cleanUrl = ''https://shop.test/sale''\<rparr>] (Some [])) ''status'' = JStr ''PASS''
   \<and> getProp (compareCTAUrls parseURL
        [\<lparr>ctaText = ''Shop Now'', ctaUrl = ''https://shop.test/sale?utm_campaign=x'',
          cleanUrl = ''https://shop.test/sale''\<rparr>] None) ''status'' = JStr ''PASS''
   \<and> getProp (checkKeywords ''Nothing to see'' (Some [])) ''status'' = JStr ''PASS''"
proof -
  let ?cfg = "\<lparr>ctaTexts = Some [], ctaUrls = None, unsubscribeText = None,
               footerTexts = None, requiredKeywords = Some []\<rparr>"
  let ?ec = "\<lparr>emailText = ''Nothing to see'',
              ctaButtons = [\<lparr>ctaText = ''Shop Now'',
                             ctaUrl = ''https://shop.test/sale?utm_campaign=x'',
                             cleanUrl = ''https://shop.test/sale''\<rparr>],
              hasUnsubscribe = None, footer = []\<rparr>"
  have s: "ctaTexts ?cfg = Some []" "ctaUrls ?cfg = None" "requiredKeywords ?cfg = Some []"
    "ctaButtons ?ec = [\<lparr>ctaText = ''Shop Now'',
                             ctaUrl = ''https://shop.test/sale?utm_campaign=x'',
                             cleanUrl = ''https://shop.test/sale''\<rparr>]"
    "emailText ?ec = ''Nothing to see''"
    by (simp_all only: config.select_convs emailContent.select_convs)
  have h: "unconfigured (ctaTexts ?cfg)" "unconfigured (ctaUrls ?cfg)"
    "unconfigured (requiredKeywords ?cfg)"
    unfolding s by (simp_all add: unconfigured_def)
  from h vacuous_pass [OF h, of "''Spring sale''" ?ec parseURL, unfolded s]
  show ?thesis by (intro conjI) (simp_all only: simp_thms)
qed

text \<open>
  Claim C8. For an email whose unsubscribe signal comes from \<open>findUnsubscribe\<close>, the
  unsubscribe check returns PASS as soon as the link signal or the text signal holds,
  whatever the email text and the configured unsubscribe text are: either signal alone
  suffices, because \<open>findUnsubscribe\<close> sets the flag \<open>found\<close> that the check reads
  to their disjunction.
\<close>

theorem unsubscribe_signal_suffices:
  assumes "hasUnsubscribe ec = Some (findUnsubscribe doc)"
    and "hasLink (findUnsubscribe doc) \<or> hasText (findUnsubscribe doc)"
  shows "getProp (checkUnsubscribe ec requiredText) ''status'' = JStr ''PASS''"
proof -
  have "found (findUnsubscribe doc) = (hasText (findUnsubscribe doc) \<or> hasLink (findUnsubscribe doc))"
    unfolding findUnsubscribe_def Let_def
    by (simp only: unsubscribe.select_convs)
  with assms(2) have "found (findUnsubscribe doc)"
    by blast
  then have s: "signal found ec = True"
    using assms(1) by (simp add: signal_def)
  show ?thesis
    unfolding checkUnsubscribe_def Let_def s
    by (simp only: simp_thms if_False getProp_status)
qed

theorem unsubscribe_signal_suffices_witness:
  "hasUnsubscribe \<lparr>emailText = ''Spring sale Manage'', ctaButtons = [],
                   hasUnsubscribe = Some (findUnsubscribe optoutDoc), footer = []\<rparr>
     = Some (findUnsubscribe optoutDoc)
   \<and> hasLink (findUnsubscribe optoutDoc)
   \<and> \<not> hasText (findUnsubscribe optoutDoc)
   \<and> \<not> includesStr (toLowerCase ''Spring sale Manage'') (toLowerCase ''unsubscribe'')
   \<and> getProp (checkUnsubscribe
        \<lparr>emailText = ''Spring sale Manage'', ctaButtons = [],
         hasUnsubscribe = Some (findUnsubscribe optoutDoc), footer = []\<rparr> None) ''status''
       = JStr ''PASS''"
proof -
  let ?ec = "\<lparr>emailText = ''Spring sale Manage'', ctaButtons = [],
              hasUnsubscribe = Some (findUnsubscribe optoutDoc), footer = []\<rparr>"
  have l: "hasLink (findUnsubscribe optoutDoc)"
    by code_simp
  have t: "\<not> hasText (findUnsubscribe optoutDoc)"
    by code_simp
  have n: "\<not> includesStr (toLowerCase ''Spring sale Manage'') (toLowerCase ''unsubscribe'')"
    by code_simp
  have h: "hasUnsubscribe ?ec = Some (findUnsubscribe optoutDoc)"
    by (simp only: emailContent.select_convs)
  have d: "hasLink (findUnsubscribe optoutDoc) \<or> hasText (findUnsubscribe optoutDoc)"
    using l by (rule disjI1)
  from h l t n unsubscribe_signal_suffices [OF h d, of None]
  show ?thesis by (intro conjI)
qed

section \<open>Properties of the URL canonicalisation\<close>

lemma parseURL_not_a_url: "parseURL ''Not A URL/'' = None"
  by code_simp

lemma lower_not_a_url: "dropTrailingSlash (toLowerCase ''Not A URL/'') = ''not a url''"
  by code_simp

lemma parseURL_plain:
  "parseURL ''https://x.test/p'' =
     Some \<lparr>origin = ''https://x.test'', pathname = ''/p'', beforeQuery = ''https://x.test/p'',
           searchParams = [], query = None, fragment = None\<rparr>"
  by code_simp

lemma strip_first_run:
  "stripTrackingParams parseURL ''https://x.test/p?utm_source_a=1&utm_source_b=2&id=3''
     = ''https://x.test/p?utm_source_b=2&id=3''"
  by code_simp

lemma strip_second_run:
  "stripTrackingParams parseURL ''https://x.test/p?utm_source_b=2&id=3'' = ''https://x.test/p?id=3''"
  by code_simp

text \<open>
  Claim C5, as stated, fails: the string "Not A URL/" is not a URL, and
  \<open>stripTrackingParams\<close> returns it as it is, with its capitals and its trailing slash,
  not the lower-cased string without the slash.
\<close>

theorem stripTrackingParams_unparseable_counterexample:
  "parseURL ''Not A URL/'' = None
   \<and> stripTrackingParams parseURL ''Not A URL/'' = ''Not A URL/''
   \<and> dropTrailingSlash (toLowerCase ''Not A URL/'') = ''not a url''
   \<and> stripTrackingParams parseURL ''Not A URL/'' \<noteq> dropTrailingSlash (toLowerCase ''Not A URL/'')"
proof -
  have a: "stripTrackingParams parseURL ''Not A URL/'' = ''Not A URL/''"
    by (simp only: stripTrackingParams_def parseURL_not_a_url option.case)
  have b: "''Not A URL/'' \<noteq> ''not a url''"
    by simp
  show ?thesis
    unfolding a lower_not_a_url using parseURL_not_a_url b by (intro conjI) simp_all
qed

text \<open>
  Claim C5, amended. \<open>stripTrackingParams\<close> returns a string for every input string and
  never throws: when the string cannot be parsed as a URL the result is the original
  string unchanged, and when it can the result is the serialisation of the URL object
  after the loop over the tracking parameters (a loop that always ends).
\<close>

theorem stripTrackingParams_total:
  "(newURL url = None \<longrightarrow> stripTrackingParams newURL url = url)
   \<and> (\<forall>urlObj. newURL url = Some urlObj \<longrightarrow>
          stripTrackingParams newURL url = toString (fold stripParam trackingParams urlObj))"
  by (simp add: stripTrackingParams_def)

theorem stripTrackingParams_total_witness:
  "parseURL ''Not A URL/'' = None
   \<and> stripTrackingParams parseURL ''Not A URL/'' = ''Not A URL/''
   \<and> parseURL ''https://x.test/p'' =
        Some \<lparr>origin = ''https://x.test'', pathname = ''/p'', beforeQuery = ''https://x.test/p'',
              searchParams = [], query = None, fragment = None\<rparr>
   \<and> stripTrackingParams parseURL ''https://x.test/p'' =
        toString (fold stripParam trackingParams
          \<lparr>origin = ''https://x.test'', pathname = ''/p'', beforeQuery = ''https://x.test/p'',
           searchParams = [], query = None, fragment = None\<rparr>)"
proof -
  have n: "parseURL ''Not A URL/'' = None"
    by (rule parseURL_not_a_url)
  have s: "parseURL ''https://x.test/p'' =
        Some \<lparr>origin = ''https://x.test'', pathname = ''/p'', beforeQuery = ''https://x.test/p'',
              searchParams = [], query = None, fragment = None\<rparr>"
    by (rule parseURL_plain)
  have a: "stripTrackingParams parseURL ''Not A URL/'' = ''Not A URL/''"
    using stripTrackingParams_total [of parseURL "''Not A URL/''"] n by blast
  have b: "stripTrackingParams parseURL ''https://x.test/p'' =
        toString (fold stripParam trackingParams
          \<lparr>origin = ''https://x.test'', pathname = ''/p'', beforeQuery = ''https://x.test/p'',
           searchParams = [], query = None, fragment = None\<rparr>)"
    using stripTrackingParams_total [of parseURL "''https://x.test/p''"] s by blast
  from n a s b show ?thesis by (intro conjI)
qed

text \<open>The example of the specification: \<open>id=1\<close> stays and \<open>utm_source\<close> goes.\<close>

lemma stripTrackingParams_example:
  "stripTrackingParams parseURL ''https://x.test/p?utm_source=a&id=1'' = ''https://x.test/p?id=1''"
  by code_simp

text \<open>
  Claim C6 on the code: a query parameter whose name starts with a tracking entry can
  survive. Here \<open>utm_source_a\<close> and \<open>utm_source_b\<close> both start with \<open>utm_source\<close>;
  deleting the first inside the loop over the live list moves the second to the index the
  iterator has already passed, and it is kept.
\<close>

theorem stripTrackingParams_keeps_prefixed_param:
  "stripTrackingParams parseURL ''https://x.test/p?utm_source_a=1&utm_source_b=2&id=3''
     = ''https://x.test/p?utm_source_b=2&id=3''"
  by (rule strip_first_run)

text \<open>
  Claim C7 on the code: on the same URL a second run removes the parameter that the
  first run skipped, so running twice differs from running once.
\<close>

theorem stripTrackingParams_not_idempotent:
  "stripTrackingParams parseURL
     (stripTrackingParams parseURL ''https://x.test/p?utm_source_a=1&utm_source_b=2&id=3'')
     = ''https://x.test/p?id=3''
   \<and> stripTrackingParams parseURL
     (stripTrackingParams parseURL ''https://x.test/p?utm_source_a=1&utm_source_b=2&id=3'')
     \<noteq> stripTrackingParams parseURL ''https://x.test/p?utm_source_a=1&utm_source_b=2&id=3''"
proof -
  have d: "''https://x.test/p?id=3'' \<noteq> ''https://x.test/p?utm_source_b=2&id=3''"
    by simp
  show ?thesis
    unfolding strip_first_run strip_second_run using d by (intro conjI) simp_all
qed

section \<open>Properties of the content extraction\<close>

lemma ctaText_ctaOf: "ctaText (ctaOf newURL el) = trim (textOf el)"
  by (simp add: ctaOf_def)

lemma pushButton_eq:
  "pushButton newURL el ctas = (if hasTextAndHref el then ctas @ [ctaOf newURL el] else ctas)"
  by (simp add: pushButton_def hasTextAndHref_def ctaOf_def Let_def)

lemma pushProminent_eq:
  "pushProminent newURL el ctas =
     (if hasTextAndHref el \<and> ctaKeywords (trim (textOf el))
         \<and> trim (textOf el) \<notin> ctaText ` set ctas
      then ctas @ [ctaOf newURL el] else ctas)"
proof -
  have f: "(find (\<lambda>c. ctaText c = t) ctas = None) = (t \<notin> ctaText ` set ctas)" for t
    by (auto simp: find_None_iff)
  show ?thesis
    by (simp add: pushProminent_def hasTextAndHref_def ctaOf_def Let_def f)
qed

lemma fold_pushButton:
  "fold (pushButton newURL) els acc = acc @ map (ctaOf newURL) (filter hasTextAndHref els)"
  by (induction els arbitrary: acc) (simp_all add: pushButton_eq)

lemma fold_pushProminent:
  "\<exists>kept. fold (pushProminent newURL) els acc = acc @ map (ctaOf newURL) kept
     \<and> subseq kept (filter (\<lambda>el. hasTextAndHref el \<and> ctaKeywords (trim (textOf el))) els)
     \<and> distinct (map (\<lambda>el. trim (textOf el)) kept)
     \<and> (\<forall>el \<in> set kept. trim (textOf el) \<notin> ctaText ` set acc)"
proof (induction els arbitrary: acc)
  case Nil
  show ?case by (rule exI [of _ "[]"]) simp
next
  case (Cons e es)
  let ?P = "\<lambda>el. hasTextAndHref el \<and> ctaKeywords (trim (textOf el))"
  show ?case
  proof (cases "?P e \<and> trim (textOf e) \<notin> ctaText ` set acc")
    case True
    then have step: "pushProminent newURL e acc = acc @ [ctaOf newURL e]"
      by (simp add: pushProminent_eq)
    from Cons.IH [of "acc @ [ctaOf newURL e]"] obtain kept where
      k: "fold (pushProminent newURL) es (acc @ [ctaOf newURL e])
            = (acc @ [ctaOf newURL e]) @ map (ctaOf newURL) kept"
        "subseq kept (filter ?P es)"
        "distinct (map (\<lambda>el. trim (textOf el)) kept)"
        "\<forall>el \<in> set kept. trim (textOf el) \<notin> ctaText ` set (acc @ [ctaOf newURL e])"
      by blast
    have "fold (pushProminent newURL) (e # es) acc = acc @ map (ctaOf newURL) (e # kept)"
      using k(1) step by simp
    moreover have "subseq (e # kept) (filter ?P (e # es))"
      using True k(2) by simp
    moreover have "distinct (map (\<lambda>el. trim (textOf el)) (e # kept))"
      using k(3) k(4) by (auto simp: ctaText_ctaOf)
    moreover have "\<forall>el \<in> set (e # kept). trim (textOf el) \<notin> ctaText ` set acc"
      using True k(4) by auto
    ultimately show ?thesis by blast
  next
    case False
    then have step: "pushProminent newURL e acc = acc"
      by (auto simp: pushProminent_eq)
    from Cons.IH [of acc] obtain kept where
      k: "fold (pushProminent newURL) es acc = acc @ map (ctaOf newURL) kept"
        "subseq kept (filter ?P es)"
        "distinct (map (\<lambda>el. trim (textOf el)) kept)"
        "\<forall>el \<in> set kept. trim (textOf el) \<notin> ctaText ` set acc"
      by blast
    have "fold (pushProminent newURL) (e # es) acc = acc @ map (ctaOf newURL) kept"
      using k(1) step by simp
    moreover have "subseq kept (filter ?P (e # es))"
      using k(2) by (auto intro: list_emb_Cons)
    ultimately show ?thesis using k(3) k(4) by blast
  qed
qed

lemma twoButtons_texts:
  "map ctaText (extractCTAs parseURL twoButtonsDoc) = [''Shop'', ''Shop'', ''Buy'']"
  by code_simp

text \<open>
  Claim C9, as stated, fails: two button-styled links with the same label are both
  extracted, so the sequence holds the display text "Shop" twice.
\<close>

theorem extractCTAs_duplicate_counterexample:
  "map ctaText (extractCTAs parseURL twoButtonsDoc) = [''Shop'', ''Shop'', ''Buy'']
   \<and> \<not> distinct (map ctaText (extractCTAs parseURL twoButtonsDoc))"
  unfolding twoButtons_texts by simp

lemma fold_pushProminent_exact:
  "ctaText ` set acc = S \<union> (\<lambda>e. trim (textOf e)) ` set (filter actionAnchor earlier) \<Longrightarrow>
   fold (pushProminent newURL) els acc =
     acc @ map (ctaOf newURL)
       (map snd
          (filter (\<lambda>(earlier, el).
                     actionAnchor el
                     \<and> trim (textOf el) \<notin> S
                     \<and> trim (textOf el) \<notin> (\<lambda>e. trim (textOf e)) ` set (filter actionAnchor earlier))
             (withEarlier earlier els)))"
proof (induction els arbitrary: acc earlier)
  case Nil
  show ?case by simp
next
  case (Cons e es)
  let ?t = "\<lambda>e. trim (textOf e)"
  let ?push = "actionAnchor e \<and> ?t e \<notin> S \<and> ?t e \<notin> ?t ` set (filter actionAnchor earlier)"
  have cond: "(hasTextAndHref e \<and> ctaKeywords (?t e) \<and> ?t e \<notin> ctaText ` set acc) = ?push"
    unfolding Cons.prems actionAnchor_def by blast
  show ?case
  proof (cases ?push)
    case True
    then have step: "pushProminent newURL e acc = acc @ [ctaOf newURL e]"
      unfolding pushProminent_eq cond by simp
    have inv: "ctaText ` set (acc @ [ctaOf newURL e])
                 = S \<union> ?t ` set (filter actionAnchor (earlier @ [e]))"
      using True Cons.prems by (auto simp: ctaText_ctaOf)
    show ?thesis
      using Cons.IH [OF inv] True by (simp add: step)
  next
    case False
    then have step: "pushProminent newURL e acc = acc"
      unfolding pushProminent_eq cond by simp
    have inv: "ctaText ` set acc = S \<union> ?t ` set (filter actionAnchor (earlier @ [e]))"
      using False Cons.prems by auto
    show ?thesis
      using Cons.IH [OF inv] False by (simp add: step)
  qed
qed

lemma subseq_fresh:
  "subseq (map snd (filter (\<lambda>(earlier, el). actionAnchor el \<and> R earlier el) (withEarlier earlier els)))
          (filter actionAnchor els)"
  by (induction els arbitrary: earlier) (auto intro: list_emb_Cons)

text \<open>
  Claim C9, amended. The extracted sequence is exactly the button-like (pass 1)
  candidates, one for every button-like element with non-empty trimmed text and non-empty
  href, in document order and without de-duplication, followed by the action-verb
  (pass 2) candidates: one for every anchor, in document order, that has text, href and
  a leading action verb and whose display text is neither that of a pass-1 candidate nor
  that of an earlier such anchor (the first occurrence wins). Hence the pass-2
  candidates have pairwise different display texts, each different from the display text
  of every pass-1 candidate.
\<close>

theorem extractCTAs_passes:
  "extractCTAs newURL doc
     = map (ctaOf newURL) (filter hasTextAndHref (select ctaSelectors doc))
       @ map (ctaOf newURL)
           (freshAnchors
              (map (\<lambda>el. trim (textOf el)) (filter hasTextAndHref (select ctaSelectors doc)))
              (select [Tag ''a''] doc))
   \<and> subseq
        (freshAnchors
           (map (\<lambda>el. trim (textOf el)) (filter hasTextAndHref (select ctaSelectors doc)))
           (select [Tag ''a''] doc))
        (filter actionAnchor (select [Tag ''a''] doc))
   \<and> distinct (map ctaText (map (ctaOf newURL)
        (freshAnchors
           (map (\<lambda>el. trim (textOf el)) (filter hasTextAndHref (select ctaSelectors doc)))
           (select [Tag ''a''] doc))))
   \<and> (\<forall>c \<in> set (map (ctaOf newURL)
          (freshAnchors
             (map (\<lambda>el. trim (textOf el)) (filter hasTextAndHref (select ctaSelectors doc)))
             (select [Tag ''a''] doc))).
        \<forall>b \<in> set (map (ctaOf newURL) (filter hasTextAndHref (select ctaSelectors doc))).
          ctaText c \<noteq> ctaText b)"
proof -
  let ?buttons = "filter hasTextAndHref (select ctaSelectors doc)"
  let ?pass1 = "map (ctaOf newURL) ?buttons"
  let ?seen = "map (\<lambda>el. trim (textOf el)) ?buttons"
  let ?anchors = "select [Tag ''a''] doc"
  let ?fresh = "freshAnchors ?seen ?anchors"
  have p1: "fold (pushButton newURL) (select ctaSelectors doc) [] = ?pass1"
    by (simp add: fold_pushButton)
  have inv: "ctaText ` set ?pass1
               = set ?seen \<union> (\<lambda>e. trim (textOf e)) ` set (filter actionAnchor [])"
  proof -
    have "ctaText ` set ?pass1 = set ?seen"
      by (simp add: image_image ctaText_ctaOf)
    then show ?thesis
      by simp
  qed
  have exact: "fold (pushProminent newURL) ?anchors ?pass1 = ?pass1 @ map (ctaOf newURL) ?fresh"
    unfolding fold_pushProminent_exact [OF inv] freshAnchors_def by simp
  have eq: "extractCTAs newURL doc = ?pass1 @ map (ctaOf newURL) ?fresh"
    unfolding extractCTAs_def p1 by (rule exact)
  have sub: "subseq ?fresh (filter actionAnchor ?anchors)"
    unfolding freshAnchors_def by (rule subseq_fresh)
  from fold_pushProminent [of newURL ?anchors ?pass1] obtain kept where
    k: "fold (pushProminent newURL) ?anchors ?pass1 = ?pass1 @ map (ctaOf newURL) kept"
      "distinct (map (\<lambda>el. trim (textOf el)) kept)"
      "\<forall>el \<in> set kept. trim (textOf el) \<notin> ctaText ` set ?pass1"
    by blast
  have same: "map (ctaOf newURL) ?fresh = map (ctaOf newURL) kept"
    using exact k(1) by simp
  have texts: "map ctaText (map (ctaOf newURL) kept) = map (\<lambda>el. trim (textOf el)) kept"
    by (simp add: ctaText_ctaOf comp_def)
  have dist: "distinct (map ctaText (map (ctaOf newURL) ?fresh))"
    unfolding same texts by (rule k(2))
  have disj: "\<forall>c \<in> set (map (ctaOf newURL) ?fresh). \<forall>b \<in> set ?pass1. ctaText c \<noteq> ctaText b"
    unfolding same
  proof (intro ballI)
    fix c b
    assume c: "c \<in> set (map (ctaOf newURL) kept)" and b: "b \<in> set ?pass1"
    from c obtain el where el: "el \<in> set kept" "c = ctaOf newURL el"
      by auto
    from el(1) k(3) have "trim (textOf el) \<notin> ctaText ` set ?pass1"
      by blast
    with b have "trim (textOf el) \<noteq> ctaText b"
      by blast
    then show "ctaText c \<noteq> ctaText b"
      unfolding el(2) ctaText_ctaOf .
  qed
  from eq sub dist disj show ?thesis
    by (intro conjI)
qed

lemma twoButtons_pass1:
  "map ctaUrl (map (ctaOf parseURL) (filter hasTextAndHref (select ctaSelectors twoButtonsDoc)))
     = [''https://x.test/a'', ''https://x.test/b'']"
  by code_simp

lemma twoButtons_pass2:
  "map ctaUrl (map (ctaOf parseURL)
     (freshAnchors
        (map (\<lambda>el. trim (textOf el)) (filter hasTextAndHref (select ctaSelectors twoButtonsDoc)))
        (select [Tag ''a''] twoButtonsDoc)))
     = [''https://x.test/d'']"
  by code_simp

theorem extractCTAs_passes_witness:
  "map ctaUrl (map (ctaOf parseURL) (filter hasTextAndHref (select ctaSelectors twoButtonsDoc)))
     = [''https://x.test/a'', ''https://x.test/b'']
   \<and> map ctaUrl (map (ctaOf parseURL)
        (freshAnchors
           (map (\<lambda>el. trim (textOf el)) (filter hasTextAndHref (select ctaSelectors twoButtonsDoc)))
           (select [Tag ''a''] twoButtonsDoc)))
     = [''https://x.test/d'']
   \<and> map ctaUrl (extractCTAs parseURL twoButtonsDoc)
     = [''https://x.test/a'', ''https://x.test/b'', ''https://x.test/d'']
   \<and> distinct (map ctaText (map (ctaOf parseURL)
        (freshAnchors
           (map (\<lambda>el. trim (textOf el)) (filter hasTextAndHref (select ctaSelectors twoButtonsDoc)))
           (select [Tag ''a''] twoButtonsDoc))))"
proof -
  note th = extractCTAs_passes [of parseURL twoButtonsDoc]
  from th have eq: "extractCTAs parseURL twoButtonsDoc
     = map (ctaOf parseURL) (filter hasTextAndHref (select ctaSelectors twoButtonsDoc))
       @ map (ctaOf parseURL)
           (freshAnchors
              (map (\<lambda>el. trim (textOf el)) (filter hasTextAndHref (select ctaSelectors twoButtonsDoc)))
              (select [Tag ''a''] twoButtonsDoc))"
    by (rule conjunct1)
  have urls: "map ctaUrl (extractCTAs parseURL twoButtonsDoc)
     = [''https://x.test/a'', ''https://x.test/b'', ''https://x.test/d'']"
    unfolding eq map_append twoButtons_pass1 twoButtons_pass2 by simp
  from th have dist: "distinct (map ctaText (map (ctaOf parseURL)
        (freshAnchors
           (map (\<lambda>el. trim (textOf el)) (filter hasTextAndHref (select ctaSelectors twoButtonsDoc)))
           (select [Tag ''a''] twoButtonsDoc))))"
    by blast
  from twoButtons_pass1 twoButtons_pass2 urls dist show ?thesis
    by (intro conjI)
qed

lemma select_single_empty:
  assumes "select sels doc = []" and "sel \<in> set sels"
  shows "select [sel] doc = []"
proof -
  from assms(1) have "\<forall>x \<in> set (allElements doc).
      \<not> (case x of (anc, el) \<Rightarrow> list_ex (\<lambda>s. matches s anc el) sels)"
    by (simp add: select_def filter_empty_conv)
  with assms(2) have "\<forall>x \<in> set (allElements doc).
      \<not> (case x of (anc, el) \<Rightarrow> list_ex (\<lambda>s. matches s anc el) [sel])"
    by (auto simp: list_ex_iff)
  then show ?thesis
    by (simp add: select_def filter_empty_conv)
qed

lemma firstFooter_none:
  "(\<And>sel. sel \<in> set sels \<Longrightarrow> select [sel] doc = []) \<Longrightarrow> firstFooter sels doc = []"
  by (induction sels) simp_all

lemma extractFooter_fallback:
  assumes "select footerSelectors doc = []"
  shows "extractFooter doc =
           (let lines = filter (\<lambda>l. trim l \<noteq> []) (split CHR ''\<newline>'' (bodyText doc))
            in join ''\<newline>'' (drop (length lines - 5) lines))"
proof -
  have "firstFooter footerSelectors doc = []"
    by (rule firstFooter_none) (rule select_single_empty [OF assms])
  then show ?thesis
    by (simp add: extractFooter_def Let_def)
qed

text \<open>
  Claim C10. When no element of the document matches a footer selector (no
  \<open>footer\<close> element, no class containing "footer", no id \<open>footer\<close>) and the body
  text has exactly 7 non-blank lines, the extracted footer text is the last 5 of those
  lines joined by newline.
\<close>

theorem extractFooter_last_five:
  assumes "select footerSelectors doc = []"
    and "length (filter (\<lambda>l. trim l \<noteq> []) (split CHR ''\<newline>'' (bodyText doc))) = 7"
  shows "extractFooter doc =
           join ''\<newline>''
             (drop 2 (filter (\<lambda>l. trim l \<noteq> []) (split CHR ''\<newline>'' (bodyText doc))))
         \<and> length (drop 2 (filter (\<lambda>l. trim l \<noteq> []) (split CHR ''\<newline>'' (bodyText doc)))) = 5"
  using assms(2) by (simp add: extractFooter_fallback [OF assms(1)] Let_def)

theorem extractFooter_last_five_witness:
  "select footerSelectors sevenLinesDoc = []
   \<and> filter (\<lambda>l. trim l \<noteq> []) (split CHR ''\<newline>'' (bodyText sevenLinesDoc))
       = [''l1'', ''l2'', ''l3'', ''l4'', ''l5'', ''l6'', ''l7'']
   \<and> extractFooter sevenLinesDoc = ''l3\<newline>l4\<newline>l5\<newline>l6\<newline>l7''"
proof -
  have h: "select footerSelectors sevenLinesDoc = []"
    by code_simp
  have l: "filter (\<lambda>l. trim l \<noteq> []) (split CHR ''\<newline>'' (bodyText sevenLinesDoc))
       = [''l1'', ''l2'', ''l3'', ''l4'', ''l5'', ''l6'', ''l7'']"
    by code_simp
  have n: "length (filter (\<lambda>l. trim l \<noteq> []) (split CHR ''\<newline>'' (bodyText sevenLinesDoc))) = 7"
    unfolding l by simp
  have "extractFooter sevenLinesDoc = ''l3\<newline>l4\<newline>l5\<newline>l6\<newline>l7''"
    using extractFooter_last_five [OF h n] unfolding l by simp
  with h l show ?thesis by (intro conjI)
qed

end
